theory Spec2Isabelle
  imports Main
begin

section \<open>The chalk-talk notebook: build, stage, train, compile\<close>

text \<open>
  The repository is one notebook, \<^verbatim>\<open>chalk_talk_demo-neo.ipynb\<close>. Its code cells are
  shell scripts and Python glue around remote services. Each cell is embedded as a function;
  what a remote service answers is an explicit parameter (an environment record), and every
  remote call a cell makes is written to a trace, so that statements about what was or was
  not invoked are statements about that trace.
\<close>

subsection \<open>Python strings: \<^verbatim>\<open>str.split\<close>, \<^verbatim>\<open>str.join\<close>, slicing\<close>

text \<open>
  \<^verbatim>\<open>s.split(sep)\<close> for a one-character separator: the list of the pieces between the
  separators, never empty (\<^verbatim>\<open>''.split('/') == ['']\<close>).
\<close>

fun str_split :: "char \<Rightarrow> string \<Rightarrow> string list" where
  "str_split sep [] = [[]]"
| "str_split sep (c # cs) =
     (if c = sep then [] # str_split sep cs
      else (case str_split sep cs of
              [] \<Rightarrow> [[c]]
            | w # ws \<Rightarrow> (c # w) # ws))"

text \<open>\<^verbatim>\<open>sep.join(xs)\<close>.\<close>

fun str_join :: "string \<Rightarrow> string list \<Rightarrow> string" where
  "str_join sep [] = []"
| "str_join sep [x] = x"
| "str_join sep (x # y # ys) = x @ sep @ str_join sep (y # ys)"

text \<open>\<^verbatim>\<open>xs[:-1]\<close>: all but the last element, the empty list for the empty list.\<close>

definition all_but_last :: "'a list \<Rightarrow> 'a list" where
  "all_but_last xs = take (length xs - 1) xs"

text \<open>
  Cell 34, first line:
  \<^verbatim>\<open>output_path = '/'.join(estimator.output_path.split('/')[:-1])\<close>
\<close>

definition output_path :: "string \<Rightarrow> string" where
  "output_path estimator_output_path =
     str_join ''/'' (all_but_last (str_split CHR ''/'' estimator_output_path))"

text \<open>
  The specification's wording of the same step: the path with its final
  \<open>/\<close>-separated segment removed, that is, without its last \<open>/\<close> and everything
  after it (a path with no \<open>/\<close> is one segment, and nothing is left of it).
\<close>

definition without_final_segment :: "string \<Rightarrow> string" where
  "without_final_segment s = rev (drop 1 (dropWhile (\<lambda>c. c \<noteq> CHR ''/'') (rev s)))"

subsection \<open>Cell 8: Image Build \<open>&\<close> Publish (a shell script)\<close>

text \<open>
  The script runs without \<^verbatim>\<open>set -e\<close>: a failing command does not stop it. The only
  exit statuses it tests are those of \<^verbatim>\<open>aws sts get-caller-identity\<close> and of
  \<^verbatim>\<open>aws ecr describe-repositories\<close>, and the only output it reads back is the account
  and the configured region. These are the fields of the shell environment; what every other
  command answers has no influence on which commands run.
\<close>

record shell_env =
  sts_account :: "string option"
    \<comment> \<open>\<open>None\<close>: \<^verbatim>\<open>get-caller-identity\<close> exits non-zero; \<open>Some a\<close>: it prints \<open>a\<close>\<close>
  configured_region :: string
    \<comment> \<open>what \<^verbatim>\<open>aws configure get region\<close> prints, empty when no region is configured\<close>
  repository_exists :: bool
    \<comment> \<open>\<^verbatim>\<open>describe-repositories\<close> exits with status 0\<close>

text \<open>The commands the script can run, with the arguments it gives them.\<close>

datatype command =
    Wget string
  | Aws_sts_get_caller_identity
  | Aws_configure_get_region
  | Aws_ecr_describe_repositories string
  | Aws_ecr_create_repository string
  | Ecr_login "string option" string
      \<comment> \<open>\<^verbatim>\<open>$(aws ecr get-login [--registry-ids I] --region R --no-include-email)\<close>\<close>
  | Echo string
  | Docker_build string string string
      \<comment> \<open>\<^verbatim>\<open>-t\<close> name, \<^verbatim>\<open>ARCH\<close>, \<^verbatim>\<open>REGION\<close>\<close>
  | Docker_tag string string
  | Docker_push string

text \<open>
  How the script ends: \<open>exited = Some n\<close> after \<^verbatim>\<open>exit n\<close>; \<open>None\<close> when it runs to
  its last line (its status is then that of the last \<^verbatim>\<open>docker push\<close>).
\<close>

record script_result =
  exited :: "nat option"
  commands :: "command list"

definition IMAGE :: string where
  "IMAGE = ''sagemaker-fastai''"

definition FASTAI_VERSION :: string where
  "FASTAI_VERSION = ''1.0''"

definition PY_VERSION :: string where
  "PY_VERSION = ''py36''"

definition dockerfile_url :: string where
  "dockerfile_url =
     ''https://raw.githubusercontent.com/aws-samples/amazon-sagemaker-container-with-fastai/master/Dockerfile''"

text \<open>\<^verbatim>\<open>TAG="${FASTAI_VERSION}-${arch}-${PY_VERSION}"\<close>\<close>

definition TAG :: "string \<Rightarrow> string" where
  "TAG arch = FASTAI_VERSION @ ''-'' @ arch @ ''-'' @ PY_VERSION"

text \<open>\<^verbatim>\<open>FULLNAME="${account}.dkr.ecr.${region}.amazonaws.com/${IMAGE}:${TAG}"\<close>\<close>

definition FULLNAME :: "string \<Rightarrow> string \<Rightarrow> string \<Rightarrow> string" where
  "FULLNAME account region arch =
     account @ ''.dkr.ecr.'' @ region @ ''.amazonaws.com/'' @ IMAGE @ '':'' @ TAG arch"

text \<open>
  The body of \<^verbatim>\<open>for arch in gpu cpu\<close>, once per architecture and in that order. The
  unquoted \<^verbatim>\<open>${FULLNAME}\<close> is taken as one word: account and region hold no blank.
\<close>

fun build_loop :: "string \<Rightarrow> string \<Rightarrow> string list \<Rightarrow> command list" where
  "build_loop account region [] = []"
| "build_loop account region (arch # archs) =
     [Echo (''Building image with arch='' @ arch @ '', region='' @ region),
      Docker_build (IMAGE @ '':'' @ TAG arch) arch region,
      Docker_tag (IMAGE @ '':'' @ TAG arch) (FULLNAME account region arch),
      Docker_push (FULLNAME account region arch)]
     @ build_loop account region archs"

text \<open>\<^verbatim>\<open>region=${region:-us-west-2}\<close>\<close>

definition default_region :: "string \<Rightarrow> string" where
  "default_region region = (if region = [] then ''us-west-2'' else region)"

definition build_and_publish :: "shell_env \<Rightarrow> script_result" where
  "build_and_publish env =
     (let fetched = [Wget dockerfile_url, Aws_sts_get_caller_identity] in
      case sts_account env of
        None \<Rightarrow> \<lparr>exited = Some 255, commands = fetched\<rparr>
      | Some account \<Rightarrow>
          (let region = default_region (configured_region env) in
           \<lparr>exited = None,
            commands =
              fetched
              @ [Aws_configure_get_region, Aws_ecr_describe_repositories IMAGE]
              @ (if repository_exists env then [] else [Aws_ecr_create_repository IMAGE])
              @ [Ecr_login None region, Ecr_login (Some ''520713654638'') region]
              @ build_loop account region [''gpu'', ''cpu'']\<rparr>))"

text \<open>The image references the script pushes, in order.\<close>

fun pushed :: "command list \<Rightarrow> string list" where
  "pushed [] = []"
| "pushed (Docker_push name # cs) = name # pushed cs"
| "pushed (c # cs) = pushed cs"

text \<open>
  A command that touches the registry or builds an image: repository creation, registry
  login, build, tag, push.
\<close>

fun mutating :: "command \<Rightarrow> bool" where
  "mutating (Aws_ecr_create_repository r) = True"
| "mutating (Ecr_login i r) = True"
| "mutating (Docker_build t a r) = True"
| "mutating (Docker_tag s t) = True"
| "mutating (Docker_push n) = True"
| "mutating c = False"


subsection \<open>The remote services, as far as the notebook depends on them\<close>

text \<open>
  The Python cells call the object store, the identity service and the training, metrics
  and compilation services through client libraries that are not part of the repository.
  The environment fixes what those services answer during one run.
\<close>

datatype api = S3_list_objects | S3_upload | Sts | Training_metrics | Neo_compile

datatype job_status = Completed | Failed | Stopped

record env =
  default_bucket :: string
    \<comment> \<open>\<^verbatim>\<open>sagemaker_session.default_bucket()\<close>\<close>
  execution_role :: string
    \<comment> \<open>\<^verbatim>\<open>sagemaker.get_execution_role()\<close>\<close>
  getcwd :: string
    \<comment> \<open>\<^verbatim>\<open>os.getcwd()\<close>\<close>
  local_files :: "string list"
    \<comment> \<open>the files below \<^verbatim>\<open>DATA_PATH\<close>, as paths relative to it\<close>
  region_name :: string
    \<comment> \<open>\<^verbatim>\<open>boto3.session.Session().region_name\<close>\<close>
  caller_account :: string
    \<comment> \<open>\<^verbatim>\<open>client.get_caller_identity()['Account']\<close>\<close>
  timestamp :: string
    \<comment> \<open>the suffix \<^verbatim>\<open>name_from_image\<close> appends\<close>
  training_job_status :: job_status
    \<comment> \<open>the terminal state the submitted training job reaches\<close>
  estimator_output_path :: string
    \<comment> \<open>\<^verbatim>\<open>estimator.output_path\<close> after training\<close>
  unavailable :: "api list"
    \<comment> \<open>the services whose calls raise in this run\<close>

datatype py_error = ClientError api | JobError job_status

record metric_definition =
  Name :: string
  Regex :: string

record estimator =
  entry_point :: string
  role :: string
  train_instance_count :: nat
  train_instance_type :: string
  image_name :: string
  framework_version :: string
  hyperparameters :: "(string \<times> int) list"
  metric_definitions :: "metric_definition list"

record compile_request =
  target_instance_family :: string
  input_shape :: "(string \<times> nat list) list"
  compile_output_path :: string
  framework :: string
  compile_framework_version :: string

text \<open>The remote calls of the Python cells, with their arguments.\<close>

datatype call =
    List_objects_v2 string string
      \<comment> \<open>\<^verbatim>\<open>Bucket\<close>, \<^verbatim>\<open>Prefix\<close>\<close>
  | Upload_data string string string
      \<comment> \<open>\<^verbatim>\<open>path\<close>, \<^verbatim>\<open>bucket\<close>, \<^verbatim>\<open>key_prefix\<close>\<close>
  | Get_caller_identity
  | Fit estimator string string
      \<comment> \<open>the estimator, the data location, \<^verbatim>\<open>job_name\<close>\<close>
  | Training_job_analytics string "string list"
  | Compile_model estimator compile_request

datatype outcome = Returned | Raised py_error

text \<open>
  The state a run threads through its cells: the objects in the store, each a pair of
  bucket and key, and the trace of remote calls with how each ended.
\<close>

record world =
  objects :: "(string \<times> string) list"
  trace :: "(call \<times> outcome) list"

type_synonym 'a cell = "world \<Rightarrow> (py_error + 'a) \<times> world"

definition record_call :: "call \<Rightarrow> outcome \<Rightarrow> world \<Rightarrow> world" where
  "record_call c out w = w\<lparr>trace := trace w @ [(c, out)]\<rparr>"

text \<open>
  Sequencing: the second step runs on the value and the state the first one leaves; an
  exception raised by the first step ends the run there (in a run of the whole notebook, the
  cells after a raising cell are not executed).
\<close>

definition and_then :: "'a cell \<Rightarrow> ('a \<Rightarrow> 'b cell) \<Rightarrow> 'b cell" where
  "and_then m f w = (case m w of (Inl e, w') \<Rightarrow> (Inl e, w') | (Inr a, w') \<Rightarrow> f a w')"

definition return :: "'a \<Rightarrow> 'a cell" where
  "return a w = (Inr a, w)"

definition remote :: "env \<Rightarrow> api \<Rightarrow> call \<Rightarrow> 'a \<Rightarrow> (world \<Rightarrow> world) \<Rightarrow> 'a cell" where
  "remote env service c answer effect w =
     (if service \<in> set (unavailable env)
      then (Inl (ClientError service), record_call c (Raised (ClientError service)) w)
      else (Inr answer, record_call c Returned (effect w)))"

text \<open>\<^verbatim>\<open>s.startswith(p)\<close>\<close>

definition startswith :: "string \<Rightarrow> string \<Rightarrow> bool" where
  "startswith s p = (take (length p) s = p)"

definition objects_under :: "(string \<times> string) list \<Rightarrow> string \<Rightarrow> string \<Rightarrow> (string \<times> string) list" where
  "objects_under objs Bucket Prefix = filter (\<lambda>(b, k). b = Bucket \<and> startswith k Prefix) objs"

record list_objects_response =
  KeyCount :: nat

text \<open>
  Modelled from the spec: the object store's list-by-prefix call (the store's client is not
  in the repository). It answers with the number of keys of the bucket that begin with the
  prefix, at most one page of 1000.
\<close>

definition list_objects_v2 :: "env \<Rightarrow> string \<Rightarrow> string \<Rightarrow> list_objects_response cell" where
  "list_objects_v2 env Bucket Prefix w =
     remote env S3_list_objects (List_objects_v2 Bucket Prefix)
       \<lparr>KeyCount = min 1000 (length (objects_under (objects w) Bucket Prefix))\<rparr> id w"

text \<open>
  Modelled from the spec: the session's upload-tree call (the SDK is not in the repository).
  It stores every file below the local directory under \<open>key_prefix/\<close> followed by the
  file's relative path, replacing an object that has the key already, and returns the
  location \<open>s3://bucket/key_prefix\<close>.
\<close>

definition upload_data :: "env \<Rightarrow> string \<Rightarrow> string \<Rightarrow> string \<Rightarrow> string cell" where
  "upload_data env path bucket key_prefix =
     remote env S3_upload (Upload_data path bucket key_prefix)
       (''s3://'' @ bucket @ ''/'' @ key_prefix)
       (\<lambda>w. w\<lparr>objects :=
                 fold (\<lambda>f objs. List.insert (bucket, key_prefix @ ''/'' @ f) objs)
                      (local_files env) (objects w)\<rparr>)"

definition get_caller_identity :: "env \<Rightarrow> string cell" where
  "get_caller_identity env = remote env Sts Get_caller_identity (caller_account env) id"

text \<open>
  Modelled from the spec: the blocking submission (the SDK is not in the repository). It
  returns once the remote job is terminal, normally when the job completed, and with a
  propagated error when the job failed or was stopped.
\<close>

definition fit :: "env \<Rightarrow> estimator \<Rightarrow> string \<Rightarrow> string \<Rightarrow> unit cell" where
  "fit env est inputs job_name w =
     (case training_job_status env of
        Completed \<Rightarrow> (Inr (), record_call (Fit est inputs job_name) Returned w)
      | Failed \<Rightarrow> (Inl (JobError Failed),
                     record_call (Fit est inputs job_name) (Raised (JobError Failed)) w)
      | Stopped \<Rightarrow> (Inl (JobError Stopped),
                      record_call (Fit est inputs job_name) (Raised (JobError Stopped)) w))"

definition training_job_analytics :: "env \<Rightarrow> string \<Rightarrow> string list \<Rightarrow> unit cell" where
  "training_job_analytics env job_name metric_names =
     remote env Training_metrics (Training_job_analytics job_name metric_names) () id"

definition compile_model :: "env \<Rightarrow> estimator \<Rightarrow> compile_request \<Rightarrow> unit cell" where
  "compile_model env est req = remote env Neo_compile (Compile_model est req) () id"

subsection \<open>The Python cells\<close>

text \<open>Cell 6.\<close>

definition bucket_name :: "env \<Rightarrow> string" where
  "bucket_name env = default_bucket env"

definition prefix :: string where
  "prefix = ''sagemaker/DEMO-shirts-classification''"

text \<open>Cell 13: \<^verbatim>\<open>DATA_PATH=f'{os.getcwd()}/data/shirts'\<close>\<close>

definition DATA_PATH :: "env \<Rightarrow> string" where
  "DATA_PATH env = getcwd env @ ''/data/shirts''"

text \<open>
  \<^verbatim>\<open>data_location=f's3://{bucket_name}/{prefix}'\<close>, as written in cell 20 (the branch
  that skips the upload) and again in cell 27.
\<close>

definition data_location :: "string \<Rightarrow> string" where
  "data_location bucket = ''s3://'' @ bucket @ ''/'' @ prefix"

text \<open>
  Cell 20, Dataset Staging. The listing is asked for the keys under
  \<^verbatim>\<open>f'{prefix}/metal/'\<close>; the upload goes to \<^verbatim>\<open>prefix\<close>.
\<close>

definition stage_dataset :: "env \<Rightarrow> string cell" where
  "stage_dataset env =
     (let key = prefix @ ''/metal/'' in
      and_then (list_objects_v2 env (bucket_name env) key)
        (\<lambda>response.
           if KeyCount response > 0
           then return (data_location (bucket_name env))
           else upload_data env (DATA_PATH env) (bucket_name env) prefix))"

text \<open>Cells 23 and 24.\<close>

definition base_image_name :: string where
  "base_image_name = ''sagemaker-fastai''"

definition training_image_name :: "string \<Rightarrow> string \<Rightarrow> string" where
  "training_image_name account region =
     account @ ''.dkr.ecr.'' @ region @ ''.amazonaws.com/'' @ base_image_name @ '':1.0-gpu-py36''"

text \<open>
  Cell 26. In the patterns, \<^verbatim>\<open>\S\<close> is not an escape sequence of a Python string
  literal, so the literal holds the two characters backslash and \<open>S\<close>.
\<close>

definition backslash_S :: string where
  "backslash_S = [CHR 0x5C, CHR ''S'']"

definition quality_metric_regex :: "string \<Rightarrow> string" where
  "quality_metric_regex field =
     ''#quality_metric: host='' @ backslash_S @ ''+, epoch='' @ backslash_S @ ''+, ''
     @ field @ ''=('' @ backslash_S @ ''+)''"

definition estimator :: "string \<Rightarrow> string \<Rightarrow> estimator" where
  "estimator the_role the_image_name =
     \<lparr>entry_point = ''src/shirts-neo/train.py'',
      role = the_role,
      train_instance_count = 1,
      train_instance_type = ''ml.p3.2xlarge'',
      image_name = the_image_name,
      framework_version = ''1'',
      hyperparameters = [(''epochs'', 6), (''batch-size'', 64)],
      metric_definitions =
        [\<lparr>Name = ''valid:loss'', Regex = quality_metric_regex ''valid_loss''\<rparr>,
         \<lparr>Name = ''train:loss'', Regex = quality_metric_regex ''train_loss''\<rparr>,
         \<lparr>Name = ''valid:accuracy'', Regex = quality_metric_regex ''accuracy''\<rparr>]\<rparr>"

text \<open>Cell 28: \<^verbatim>\<open>training_job_name=name_from_image('fastai-shirts')\<close>\<close>

definition training_job_name :: "env \<Rightarrow> string" where
  "training_job_name env = ''fastai-shirts-'' @ timestamp env"

text \<open>Cell 34: the arguments of \<^verbatim>\<open>estimator.compile_model\<close>.\<close>

definition compile_arguments :: "env \<Rightarrow> compile_request" where
  "compile_arguments env =
     \<lparr>target_instance_family = ''ml_c5'',
      input_shape = [(''actual_input_1'', [1, 3, 224, 224])],
      compile_output_path = output_path (estimator_output_path env),
      framework = ''onnx'',
      compile_framework_version = ''1.3''\<rparr>"

text \<open>
  A run of the notebook from Dataset Staging (cell 20) to compilation (cell 34), cell after
  cell in the order of the document. The location cell 20 computes is overwritten in cell 27
  before it is used.
\<close>

definition notebook :: "env \<Rightarrow> unit cell" where
  "notebook env =
     and_then (stage_dataset env) (\<lambda>data_location_20.
     and_then (get_caller_identity env) (\<lambda>account.
       (let region = region_name env;
            image = training_image_name account region;
            est = estimator (execution_role env) image;
            data_location_27 = data_location (bucket_name env);
            job = training_job_name env in
        and_then (fit env est data_location_27 job) (\<lambda>_.
        and_then (training_job_analytics env job [''train:loss'', ''valid:loss'', ''valid:accuracy'']) (\<lambda>_.
        compile_model env est (compile_arguments env))))))"


subsection \<open>Metric extraction rules\<close>

text \<open>
  Modelled from the spec: how a rule's pattern is applied to a job log line (the training
  service, not the repository, does this). The pattern is searched in the line, leftmost
  match first; \<^verbatim>\<open>\S+\<close> takes as many non-blank characters as it can and gives back
  one at a time when the rest of the pattern does not match; a matching line yields one
  row, the rule's name with the text of the first group. The patterns of cell 26 use
  literal characters, \<^verbatim>\<open>\S+\<close> and \<^verbatim>\<open>(\S+)\<close> only, and these are the patterns
  the parser accepts.
\<close>

datatype item = Lit char | Non_space_plus bool
  \<comment> \<open>\<open>Non_space_plus True\<close> is the group \<^verbatim>\<open>(\S+)\<close>, \<open>Non_space_plus False\<close> is \<^verbatim>\<open>\S+\<close>\<close>

fun parse_regex :: "string \<Rightarrow> item list option" where
  "parse_regex [] = Some []"
| "parse_regex (c # cs) =
     (if c = CHR ''('' then
        (if take 4 cs = backslash_S @ ''+)''
         then map_option (Cons (Non_space_plus True)) (parse_regex (drop 4 cs))
         else None)
      else if c = CHR 0x5C then
        (if take 2 cs = ''S+''
         then map_option (Cons (Non_space_plus False)) (parse_regex (drop 2 cs))
         else None)
      else if c \<in> set ''.^$*+?{}[]|)'' then None
      else map_option (Cons (Lit c)) (parse_regex cs))"

text \<open>\<^verbatim>\<open>\S\<close>: any character but space, tab, line feed, vertical tab, form feed, carriage return.\<close>

definition non_space :: "char \<Rightarrow> bool" where
  "non_space c = (c \<notin> set [CHR 0x20, CHR 0x09, CHR 0x0A, CHR 0x0B, CHR 0x0C, CHR 0x0D])"

text \<open>
  \<open>attempt continue captured s n\<close>: let \<^verbatim>\<open>\S+\<close> take the first \<open>n\<close> characters of
  \<open>s\<close>, then \<open>n - 1\<close>, down to one, until the rest of the pattern matches what is left.
\<close>

fun attempt :: "(string \<Rightarrow> string list option) \<Rightarrow> bool \<Rightarrow> string \<Rightarrow> nat \<Rightarrow> string list option" where
  "attempt continue captured s 0 = None"
| "attempt continue captured s (Suc n) =
     (case continue (drop (Suc n) s) of
        Some groups \<Rightarrow> Some (if captured then take (Suc n) s # groups else groups)
      | None \<Rightarrow> attempt continue captured s n)"

text \<open>The pattern matched at the start of the text: the groups of the first way it matches.\<close>

fun match_here :: "item list \<Rightarrow> string \<Rightarrow> string list option" where
  "match_here [] s = Some []"
| "match_here (Lit c # items) s =
     (case s of
        [] \<Rightarrow> None
      | x # xs \<Rightarrow> if x = c then match_here items xs else None)"
| "match_here (Non_space_plus captured # items) s =
     attempt (\<lambda>rest. match_here items rest) captured s (length (takeWhile non_space s))"

fun search :: "item list \<Rightarrow> string \<Rightarrow> string list option" where
  "search items [] = match_here items []"
| "search items (c # cs) =
     (case match_here items (c # cs) of
        Some groups \<Rightarrow> Some groups
      | None \<Rightarrow> search items cs)"

definition extract_metric :: "metric_definition \<Rightarrow> string \<Rightarrow> (string \<times> string) list" where
  "extract_metric rule line =
     (case parse_regex (Regex rule) of
        None \<Rightarrow> []
      | Some items \<Rightarrow>
          (case search items line of
             Some (found # groups) \<Rightarrow> [(Name rule, found)]
           | _ \<Rightarrow> []))"

text \<open>The rules of the training job that carry a given name.\<close>

definition rules_named :: "string \<Rightarrow> estimator \<Rightarrow> metric_definition list" where
  "rules_named n est = filter (\<lambda>m. Name m = n) (metric_definitions est)"


subsection \<open>Observing a run\<close>

text \<open>
  A cell (or a sequence of cells) is run on the objects the store holds, with an empty
  trace; what it returns or raises, the calls it made and the store it leaves are read off
  the result.
\<close>

definition result_of :: "'a cell \<Rightarrow> (string \<times> string) list \<Rightarrow> py_error + 'a" where
  "result_of m objs = fst (m \<lparr>objects = objs, trace = []\<rparr>)"

definition events_of :: "'a cell \<Rightarrow> (string \<times> string) list \<Rightarrow> (call \<times> outcome) list" where
  "events_of m objs = trace (snd (m \<lparr>objects = objs, trace = []\<rparr>))"

definition calls_of :: "'a cell \<Rightarrow> (string \<times> string) list \<Rightarrow> call list" where
  "calls_of m objs = map fst (events_of m objs)"

definition store_after :: "'a cell \<Rightarrow> (string \<times> string) list \<Rightarrow> (string \<times> string) list" where
  "store_after m objs = objects (snd (m \<lparr>objects = objs, trace = []\<rparr>))"

fun is_upload :: "call \<Rightarrow> bool" where
  "is_upload (Upload_data p b k) = True"
| "is_upload c = False"

fun is_fit :: "call \<Rightarrow> bool" where
  "is_fit (Fit e l j) = True"
| "is_fit c = False"

fun is_compile :: "call \<Rightarrow> bool" where
  "is_compile (Compile_model e r) = True"
| "is_compile c = False"

text \<open>
  A check of a trace, from its start: every compilation call comes after a submission that
  returned normally. The flag says whether such a submission has been seen.
\<close>

fun compile_follows_fit :: "bool \<Rightarrow> (call \<times> outcome) list \<Rightarrow> bool" where
  "compile_follows_fit seen [] = True"
| "compile_follows_fit seen ((c, out) # evs) =
     ((if is_compile c then seen else True)
      \<and> compile_follows_fit (seen \<or> (is_fit c \<and> out = Returned)) evs)"

text \<open>An environment and two stores to run the cells on.\<close>

definition demo_env :: env where
  "demo_env =
     \<lparr>default_bucket = ''sagemaker-eu-west-1-123456789012'',
      execution_role = ''arn:aws:iam::123456789012:role/notebook'',
      getcwd = ''/home/ec2-user/SageMaker'',
      local_files = [''metal/m1.jpg'', ''sport/s1.jpg''],
      region_name = ''eu-west-1'',
      caller_account = ''123456789012'',
      timestamp = ''2018-11-27-20-21-19-215'',
      training_job_status = Completed,
      estimator_output_path = ''s3://sagemaker-eu-west-1-123456789012/'',
      unavailable = []\<rparr>"

definition sport_only :: "(string \<times> string) list" where
  "sport_only =
     [(''sagemaker-eu-west-1-123456789012'', ''sagemaker/DEMO-shirts-classification/sport/s1.jpg'')]"

definition metal_staged :: "(string \<times> string) list" where
  "metal_staged =
     [(''sagemaker-eu-west-1-123456789012'', ''sagemaker/DEMO-shirts-classification/metal/m1.jpg'')]"


definition demo_estimator :: estimator where
  "demo_estimator =
     estimator (execution_role demo_env)
       (training_image_name (caller_account demo_env) (region_name demo_env))"

definition accuracy_rule :: metric_definition where
  "accuracy_rule = \<lparr>Name = ''valid:accuracy'', Regex = quality_metric_regex ''accuracy''\<rparr>"


subsection \<open>Facts about splitting and joining\<close>

lemma str_split_not_Nil: "str_split sep s \<noteq> []"
  by (induction s) (auto split: list.splits)

lemma str_split_no_sep: "sep \<notin> set s \<Longrightarrow> str_split sep s = [s]"
  by (induction s) auto

lemma str_split_append:
  "str_split sep (xs @ sep # ys) = str_split sep xs @ str_split sep ys"
proof (induction xs)
  case Nil
  show ?case by simp
next
  case (Cons x xs)
  obtain w ws where w: "str_split sep xs = w # ws"
    using str_split_not_Nil [of sep xs] by (cases "str_split sep xs") auto
  with Cons show ?case by simp
qed

lemma str_join_split: "str_join [sep] (str_split sep s) = s"
proof (induction s)
  case Nil
  show ?case by simp
next
  case (Cons c cs)
  obtain w ws where w: "str_split sep cs = w # ws"
    using str_split_not_Nil [of sep cs] by (cases "str_split sep cs") auto
  show ?case
  proof (cases "c = sep")
    case True
    with Cons w show ?thesis by simp
  next
    case False
    with Cons w show ?thesis by (cases ws) auto
  qed
qed

lemma all_but_last_snoc: "all_but_last (xs @ [x]) = xs"
  by (simp add: all_but_last_def)

lemma dropWhile_rev_no_slash:
  "CHR ''/'' \<notin> set seg \<Longrightarrow> dropWhile (\<lambda>c. c \<noteq> CHR ''/'') (rev seg) = []"
  by (induction seg) auto

lemma without_final_segment_decomp:
  assumes "CHR ''/'' \<notin> set seg"
  shows "without_final_segment (d @ CHR ''/'' # seg) = d"
proof -
  have "dropWhile (\<lambda>c. c \<noteq> CHR ''/'') (rev seg @ CHR ''/'' # rev d) = CHR ''/'' # rev d"
    using assms by (simp add: dropWhile_append dropWhile_rev_no_slash)
  then show ?thesis
    by (simp add: without_final_segment_def)
qed

lemma without_final_segment_single:
  "CHR ''/'' \<notin> set s \<Longrightarrow> without_final_segment s = []"
  by (simp add: without_final_segment_def dropWhile_rev_no_slash)

text \<open>
  Claim C8. For every artifact path string, the compilation output path computed by
  cell 34 is that string with its final \<open>/\<close>-separated segment removed (its parent
  directory).
\<close>

theorem output_path_is_parent:
  "output_path p = without_final_segment p"
proof (cases "CHR ''/'' \<in> set p")
  case False
  then show ?thesis
    by (simp add: output_path_def str_split_no_sep all_but_last_def
        without_final_segment_single)
next
  case True
  then obtain d seg where p: "p = d @ CHR ''/'' # seg" and seg: "CHR ''/'' \<notin> set seg"
    using split_list_last [of "CHR ''/''" p] by blast
  have "str_split CHR ''/'' p = str_split CHR ''/'' d @ [seg]"
    using seg by (simp add: p str_split_append str_split_no_sep)
  then have "output_path p = str_join ''/'' (str_split CHR ''/'' d)"
    by (simp add: output_path_def all_but_last_snoc)
  also have "\<dots> = d"
    by (rule str_join_split)
  finally show ?thesis
    using seg by (simp add: p without_final_segment_decomp)
qed

subsection \<open>Image Build \<open>&\<close> Publish\<close>

lemma pushed_append: "pushed (cs @ ds) = pushed cs @ pushed ds"
  by (induction cs rule: pushed.induct) simp_all

lemma pushed_build_loop:
  "pushed (build_loop account region archs) = map (FULLNAME account region) archs"
  by (induction archs) simp_all

text \<open>
  Claim C3, as the code has it. Every invocation of the build script in which the account
  identity is resolved pushes exactly two image references, one per architecture token
  (\<open>gpu\<close>, then \<open>cpu\<close>); each carries a tag of the form
  \<open>{version}-{arch}-{runtime}\<close> on the same repository, so the two differ only in the
  architecture token.
\<close>

theorem build_and_publish_pushes_two:
  assumes "sts_account env = Some account"
  shows "pushed (commands (build_and_publish env)) =
           map (\<lambda>arch. account @ ''.dkr.ecr.'' @ default_region (configured_region env)
                          @ ''.amazonaws.com/'' @ IMAGE @ '':''
                          @ FASTAI_VERSION @ ''-'' @ arch @ ''-'' @ PY_VERSION)
               [''gpu'', ''cpu'']
       \<and> length (pushed (commands (build_and_publish env))) = 2
       \<and> distinct (pushed (commands (build_and_publish env)))"
  using assms
  by (simp add: build_and_publish_def Let_def pushed_append pushed_build_loop
      FULLNAME_def TAG_def)

theorem build_and_publish_pushes_two_witness:
  "pushed (commands (build_and_publish
      \<lparr>sts_account = Some ''123456789012'', configured_region = ''eu-west-1'',
       repository_exists = False\<rparr>)) =
   [''123456789012.dkr.ecr.eu-west-1.amazonaws.com/sagemaker-fastai:1.0-gpu-py36'',
    ''123456789012.dkr.ecr.eu-west-1.amazonaws.com/sagemaker-fastai:1.0-cpu-py36'']"
  using build_and_publish_pushes_two
    [of "\<lparr>sts_account = Some ''123456789012'', configured_region = ''eu-west-1'',
          repository_exists = False\<rparr>" "''123456789012''"]
  by (simp add: default_region_def IMAGE_def FASTAI_VERSION_def PY_VERSION_def)

text \<open>
  Claim C3 as stated fails: an invocation in which the account identity cannot be resolved
  pushes nothing.
\<close>

theorem build_and_publish_pushes_two_counterexample:
  "length (pushed (commands (build_and_publish
      \<lparr>sts_account = None, configured_region = ''eu-west-1'',
       repository_exists = True\<rparr>))) \<noteq> 2"
  by (simp add: build_and_publish_def)

text \<open>
  Claim C7. If resolving the account identity fails, the script exits at once with status
  255 (non-zero): the only commands it has run are the download of the build descriptor and
  the identity query itself, so no repository creation, registry login, build or push is
  attempted.
\<close>

theorem identity_failure_aborts:
  assumes "sts_account env = None"
  shows "exited (build_and_publish env) = Some 255
       \<and> commands (build_and_publish env) = [Wget dockerfile_url, Aws_sts_get_caller_identity]
       \<and> filter mutating (commands (build_and_publish env)) = []"
  using assms by (simp add: build_and_publish_def)

theorem identity_failure_aborts_witness:
  "exited (build_and_publish
      \<lparr>sts_account = None, configured_region = [], repository_exists = False\<rparr>) = Some 255
   \<and> filter mutating (commands (build_and_publish
      \<lparr>sts_account = None, configured_region = [], repository_exists = False\<rparr>)) = []"
  using identity_failure_aborts
    [of "\<lparr>sts_account = None, configured_region = [], repository_exists = False\<rparr>"]
  by simp


subsection \<open>Dataset Staging\<close>

lemma stage_dataset_skip:
  assumes "S3_list_objects \<notin> set (unavailable env)"
    and "objects_under (objects w) (bucket_name env) (prefix @ ''/metal/'') \<noteq> []"
  shows "stage_dataset env w =
     (Inr (data_location (bucket_name env)),
      record_call (List_objects_v2 (bucket_name env) (prefix @ ''/metal/'')) Returned w)"
  using assms
  by (cases "objects_under (objects w) (bucket_name env) (prefix @ ''/metal/'')")
     (simp_all add: stage_dataset_def and_then_def list_objects_v2_def remote_def return_def)

lemma stage_dataset_upload:
  assumes "S3_list_objects \<notin> set (unavailable env)"
    and "objects_under (objects w) (bucket_name env) (prefix @ ''/metal/'') = []"
  shows "stage_dataset env w =
     upload_data env (DATA_PATH env) (bucket_name env) prefix
      (record_call (List_objects_v2 (bucket_name env) (prefix @ ''/metal/'')) Returned w)"
  using assms
  by (simp add: stage_dataset_def and_then_def list_objects_v2_def remote_def)

lemma calls_upload_data:
  "map fst (trace (snd (upload_data env p b k w))) = map fst (trace w) @ [Upload_data p b k]"
  by (simp add: upload_data_def remote_def record_call_def)

text \<open>
  Claim C1, as the code has it. When the listing call answers, the upload is skipped if and
  only if the store holds at least one object under \<open>{prefix}/metal/\<close> in the bucket.
  Then the location \<open>s3://{bucket_name}/{prefix}\<close> is used and the store is left as
  it is. Otherwise the local directory tree is uploaded to \<open>{prefix}\<close>, and the
  cell's result and the store are those the upload call leaves.
\<close>

theorem staging_skips_iff_metal_listed:
  assumes "S3_list_objects \<notin> set (unavailable env)"
  shows "(filter is_upload (calls_of (stage_dataset env) objs) = [])
           = (objects_under objs (bucket_name env) (prefix @ ''/metal/'') \<noteq> [])
       \<and> (objects_under objs (bucket_name env) (prefix @ ''/metal/'') \<noteq> [] \<longrightarrow>
            result_of (stage_dataset env) objs = Inr (''s3://'' @ bucket_name env @ ''/'' @ prefix)
          \<and> store_after (stage_dataset env) objs = objs)
       \<and> (objects_under objs (bucket_name env) (prefix @ ''/metal/'') = [] \<longrightarrow>
            calls_of (stage_dataset env) objs =
              [List_objects_v2 (bucket_name env) (prefix @ ''/metal/''),
               Upload_data (DATA_PATH env) (bucket_name env) prefix]
          \<and> result_of (stage_dataset env) objs =
              result_of (upload_data env (DATA_PATH env) (bucket_name env) prefix) objs
          \<and> store_after (stage_dataset env) objs =
              store_after (upload_data env (DATA_PATH env) (bucket_name env) prefix) objs)"
proof (cases "objects_under objs (bucket_name env) (prefix @ ''/metal/'') = []")
  case True
  with assms show ?thesis
    by (simp add: calls_of_def events_of_def result_of_def store_after_def stage_dataset_upload
        calls_upload_data)
       (simp add: record_call_def upload_data_def remote_def)
next
  case False
  with assms show ?thesis
    by (simp add: calls_of_def events_of_def result_of_def store_after_def stage_dataset_skip
        record_call_def data_location_def)
qed

theorem staging_skips_iff_metal_listed_witness:
  "S3_list_objects \<notin> set (unavailable demo_env)
   \<and> objects_under metal_staged (bucket_name demo_env) (prefix @ ''/metal/'') \<noteq> []
   \<and> filter is_upload (calls_of (stage_dataset demo_env) metal_staged) = []
   \<and> result_of (stage_dataset demo_env) metal_staged
       = Inr ''s3://sagemaker-eu-west-1-123456789012/sagemaker/DEMO-shirts-classification''
   \<and> objects_under [] (bucket_name demo_env) (prefix @ ''/metal/'') = []
   \<and> calls_of (stage_dataset demo_env) [] =
       [List_objects_v2 ''sagemaker-eu-west-1-123456789012''
          ''sagemaker/DEMO-shirts-classification/metal/'',
        Upload_data ''/home/ec2-user/SageMaker/data/shirts'' ''sagemaker-eu-west-1-123456789012''
          ''sagemaker/DEMO-shirts-classification'']"
proof -
  have available: "S3_list_objects \<notin> set (unavailable demo_env)"
    by (simp add: demo_env_def)
  have staged: "objects_under metal_staged (bucket_name demo_env) (prefix @ ''/metal/'') \<noteq> []"
    by (simp add: objects_under_def metal_staged_def bucket_name_def demo_env_def prefix_def
        startswith_def)
  have empty: "objects_under [] (bucket_name demo_env) (prefix @ ''/metal/'') = []"
    by (simp add: objects_under_def)
  show ?thesis
    using staging_skips_iff_metal_listed [OF available, of metal_staged]
      staging_skips_iff_metal_listed [OF available, of "[]"] available staged empty
    by (simp add: bucket_name_def demo_env_def prefix_def DATA_PATH_def)
qed

text \<open>
  Claim C1 as stated fails: the store holds an object under the target prefix
  \<open>{prefix}\<close> (in its \<open>sport/\<close> folder), and still the upload is performed, since
  the listing is asked for \<open>{prefix}/metal/\<close>.
\<close>

theorem staging_skip_counterexample:
  "objects_under sport_only (bucket_name demo_env) prefix \<noteq> []
   \<and> calls_of (stage_dataset demo_env) sport_only =
       [List_objects_v2 (bucket_name demo_env) (prefix @ ''/metal/''),
        Upload_data (DATA_PATH demo_env) (bucket_name demo_env) prefix]"
  by (simp add: objects_under_def sport_only_def demo_env_def bucket_name_def prefix_def
      startswith_def calls_of_def events_of_def stage_dataset_def and_then_def
      list_objects_v2_def remote_def return_def upload_data_def record_call_def DATA_PATH_def)

lemma fold_insert_keeps:
  "x \<in> set objs \<Longrightarrow> x \<in> set (fold (\<lambda>f os. List.insert (g f) os) fs objs)"
  by (induction fs arbitrary: objs) simp_all

lemma fold_insert_adds:
  "f \<in> set fs \<Longrightarrow> g f \<in> set (fold (\<lambda>f os. List.insert (g f) os) fs objs)"
proof (induction fs arbitrary: objs)
  case Nil
  then show ?case by simp
next
  case (Cons a fs)
  show ?case
  proof (cases "f = a")
    case True
    then show ?thesis
      by (simp add: fold_insert_keeps)
  next
    case False
    with Cons show ?thesis by simp
  qed
qed

lemma startswith_under_prefix:
  "startswith f p \<Longrightarrow> startswith (k @ ''/'' @ f) (k @ ''/'' @ p)"
  by (simp add: startswith_def)

lemma upload_stages_metal:
  assumes "S3_upload \<notin> set (unavailable env)"
    and "f \<in> set (local_files env)" and "startswith f ''metal/''"
  shows "objects_under (store_after (upload_data env p b k) objs) b (k @ ''/metal/'') \<noteq> []"
proof -
  let ?stored = "fold (\<lambda>f os. List.insert (b, k @ ''/'' @ f) os) (local_files env) objs"
  have "(b, k @ ''/'' @ f) \<in> set ?stored"
    using assms(2) by (rule fold_insert_adds)
  moreover have "startswith (k @ ''/'' @ f) (k @ ''/metal/'')"
    using startswith_under_prefix [OF assms(3), of k] by simp
  ultimately have "\<exists>x \<in> set ?stored. case x of (b', key) \<Rightarrow> b' = b \<and> startswith key (k @ ''/metal/'')"
    by (intro bexI [of _ "(b, k @ ''/'' @ f)"]) simp_all
  then have "filter (\<lambda>(b', key). b' = b \<and> startswith key (k @ ''/metal/'')) ?stored \<noteq> []"
    by (simp add: filter_empty_conv)
  with assms(1) show ?thesis
    by (simp add: objects_under_def store_after_def upload_data_def remote_def record_call_def)
qed

lemma stage_dataset_twice:
  assumes "S3_list_objects \<notin> set (unavailable env)" and "S3_upload \<notin> set (unavailable env)"
    and "f \<in> set (local_files env)" and "startswith f ''metal/''"
  shows "filter is_upload (calls_of (stage_dataset env) (store_after (stage_dataset env) objs)) = []
       \<and> result_of (stage_dataset env) (store_after (stage_dataset env) objs)
           = result_of (stage_dataset env) objs
       \<and> result_of (stage_dataset env) objs = Inr (''s3://'' @ bucket_name env @ ''/'' @ prefix)
       \<and> store_after (stage_dataset env) (store_after (stage_dataset env) objs)
           = store_after (stage_dataset env) objs"
proof -
  let ?after = "store_after (stage_dataset env) objs"
  have staged: "objects_under ?after (bucket_name env) (prefix @ ''/metal/'') \<noteq> []"
  proof (cases "objects_under objs (bucket_name env) (prefix @ ''/metal/'') = []")
    case True
    then have "?after = store_after (upload_data env (DATA_PATH env) (bucket_name env) prefix) objs"
      using assms(1) by (simp add: store_after_def stage_dataset_upload)
           (simp add: upload_data_def remote_def record_call_def)
    then show ?thesis
      using upload_stages_metal [OF assms(2-4)] by simp
  next
    case False
    then have "?after = objs"
      using assms(1) by (simp add: store_after_def stage_dataset_skip record_call_def)
    with False show ?thesis by simp
  qed
  have first: "result_of (stage_dataset env) objs = Inr (''s3://'' @ bucket_name env @ ''/'' @ prefix)"
  proof (cases "objects_under objs (bucket_name env) (prefix @ ''/metal/'') = []")
    case True
    then show ?thesis
      using assms(1,2)
      by (simp add: result_of_def stage_dataset_upload upload_data_def remote_def)
  next
    case False
    then show ?thesis
      using assms(1) by (simp add: result_of_def stage_dataset_skip data_location_def)
  qed
  have second: "result_of (stage_dataset env) ?after = Inr (''s3://'' @ bucket_name env @ ''/'' @ prefix)
      \<and> filter is_upload (calls_of (stage_dataset env) ?after) = []
      \<and> store_after (stage_dataset env) ?after = ?after"
    using assms(1) staged
    by (simp add: result_of_def calls_of_def events_of_def stage_dataset_skip data_location_def
        record_call_def)
       (simp add: store_after_def stage_dataset_skip record_call_def)
  from first second show ?thesis
    by simp
qed

lemma demo_first_invocation_uploads:
  "filter is_upload (calls_of (stage_dataset demo_env) sport_only)
     = [Upload_data (DATA_PATH demo_env) (bucket_name demo_env) prefix]"
  by (simp add: objects_under_def sport_only_def demo_env_def bucket_name_def prefix_def
      startswith_def calls_of_def events_of_def stage_dataset_def and_then_def
      list_objects_v2_def remote_def return_def upload_data_def record_call_def DATA_PATH_def)

text \<open>
  Claim C2. The local dataset tree has the two-class layout the notebook works with, so it
  holds a file under \<open>metal/\<close> (cell 17 picks an image from that folder), and the
  store's calls answer. Then, for every store in which the target prefix \<open>{prefix}\<close>
  already holds at least one object, a second invocation of Dataset Staging performs no
  upload and returns the same location string as the first invocation,
  \<open>s3://{bucket_name}/{prefix}\<close>; it leaves the store as the first invocation left
  it. This covers the stores whose objects lie under \<open>sport/\<close> only, where the first
  invocation does upload.
\<close>

theorem staging_idempotent_when_prefix_nonempty:
  assumes "S3_list_objects \<notin> set (unavailable env)" and "S3_upload \<notin> set (unavailable env)"
    and "f \<in> set (local_files env)" and "startswith f ''metal/''"
    and "objects_under objs (bucket_name env) prefix \<noteq> []"
  shows "filter is_upload (calls_of (stage_dataset env) (store_after (stage_dataset env) objs)) = []
       \<and> result_of (stage_dataset env) (store_after (stage_dataset env) objs)
           = result_of (stage_dataset env) objs
       \<and> result_of (stage_dataset env) objs = Inr (''s3://'' @ bucket_name env @ ''/'' @ prefix)
       \<and> store_after (stage_dataset env) (store_after (stage_dataset env) objs)
           = store_after (stage_dataset env) objs"
  using assms(1-4) by (rule stage_dataset_twice)

theorem staging_idempotent_when_prefix_nonempty_witness:
  "S3_list_objects \<notin> set (unavailable demo_env) \<and> S3_upload \<notin> set (unavailable demo_env)
   \<and> ''metal/m1.jpg'' \<in> set (local_files demo_env) \<and> startswith ''metal/m1.jpg'' ''metal/''
   \<and> objects_under sport_only (bucket_name demo_env) prefix \<noteq> []
   \<and> objects_under sport_only (bucket_name demo_env) (prefix @ ''/metal/'') = []
   \<and> filter is_upload (calls_of (stage_dataset demo_env) sport_only)
       = [Upload_data (DATA_PATH demo_env) (bucket_name demo_env) prefix]
   \<and> filter is_upload
        (calls_of (stage_dataset demo_env) (store_after (stage_dataset demo_env) sport_only)) = []
   \<and> result_of (stage_dataset demo_env) (store_after (stage_dataset demo_env) sport_only)
       = Inr ''s3://sagemaker-eu-west-1-123456789012/sagemaker/DEMO-shirts-classification''
   \<and> result_of (stage_dataset demo_env) sport_only
       = Inr ''s3://sagemaker-eu-west-1-123456789012/sagemaker/DEMO-shirts-classification''"
proof -
  have h: "S3_list_objects \<notin> set (unavailable demo_env)" "S3_upload \<notin> set (unavailable demo_env)"
    "''metal/m1.jpg'' \<in> set (local_files demo_env)" "startswith ''metal/m1.jpg'' ''metal/''"
    by (simp_all add: demo_env_def startswith_def)
  have nonempty: "objects_under sport_only (bucket_name demo_env) prefix \<noteq> []"
    by (simp add: objects_under_def sport_only_def bucket_name_def demo_env_def prefix_def
        startswith_def)
  have no_metal: "objects_under sport_only (bucket_name demo_env) (prefix @ ''/metal/'') = []"
    by (simp add: objects_under_def sport_only_def bucket_name_def demo_env_def prefix_def
        startswith_def)
  have location: "''s3://'' @ bucket_name demo_env @ ''/'' @ prefix
      = ''s3://sagemaker-eu-west-1-123456789012/sagemaker/DEMO-shirts-classification''"
    by (simp add: bucket_name_def demo_env_def prefix_def)
  from staging_idempotent_when_prefix_nonempty [OF h nonempty]
    h nonempty no_metal demo_first_invocation_uploads
  show ?thesis
    unfolding location by simp
qed

subsection \<open>Training Orchestration and compilation\<close>

lemmas notebook_unfold =
  events_of_def notebook_def and_then_def stage_dataset_def list_objects_v2_def
  upload_data_def get_caller_identity_def fit_def training_job_analytics_def
  compile_model_def remote_def return_def record_call_def Let_def

lemma fit_arguments:
  assumes "Fit est loc job \<in> set (calls_of (notebook env) objs)"
  shows "est = estimator (execution_role env)
                 (training_image_name (caller_account env) (region_name env))
       \<and> loc = data_location (bucket_name env)
       \<and> job = training_job_name env"
  using assms
  by (auto simp add: calls_of_def notebook_unfold split: if_splits job_status.splits)

lemma notebook_compile_follows_fit:
  "compile_follows_fit False (events_of (notebook env) objs)"
  by (auto simp add: notebook_unfold split: if_splits job_status.splits)

lemma no_compile_unless_completed:
  assumes "training_job_status env \<noteq> Completed"
  shows "filter is_compile (calls_of (notebook env) objs) = []"
  using assms
  by (auto simp add: calls_of_def notebook_unfold split: if_splits job_status.splits)

lemma compile_follows_fit_sound:
  "compile_follows_fit seen (before @ (c, out) # after) \<Longrightarrow> is_compile c \<Longrightarrow>
   seen \<or> (\<exists>f \<in> set before. is_fit (fst f) \<and> snd f = Returned)"
proof (induction before arbitrary: seen)
  case Nil
  then show ?case by simp
next
  case (Cons b bs)
  obtain c' out' where b: "b = (c', out')" by (cases b)
  from Cons.prems
  have "compile_follows_fit (seen \<or> (is_fit c' \<and> out' = Returned)) (bs @ (c, out) # after)"
    by (simp add: b)
  from Cons.IH [OF this Cons.prems(2)] show ?case
    by (auto simp: b)
qed

lemma demo_events:
  "events_of (notebook demo_env) metal_staged =
     [(List_objects_v2 (bucket_name demo_env) (prefix @ ''/metal/''), Returned),
      (Get_caller_identity, Returned),
      (Fit demo_estimator (data_location (bucket_name demo_env)) (training_job_name demo_env),
       Returned),
      (Training_job_analytics (training_job_name demo_env)
         [''train:loss'', ''valid:loss'', ''valid:accuracy''], Returned)]
     @ (Compile_model demo_estimator (compile_arguments demo_env), Returned) # []"
  by (simp add: notebook_unfold demo_estimator_def objects_under_def metal_staged_def
      startswith_def prefix_def bucket_name_def training_job_name_def
      compile_arguments_def demo_env_def)

lemma demo_events_upload:
  "calls_of (notebook demo_env) sport_only =
     [List_objects_v2 (bucket_name demo_env) (prefix @ ''/metal/''),
      Upload_data (DATA_PATH demo_env) (bucket_name demo_env) prefix,
      Get_caller_identity,
      Fit demo_estimator (data_location (bucket_name demo_env)) (training_job_name demo_env),
      Training_job_analytics (training_job_name demo_env)
         [''train:loss'', ''valid:loss'', ''valid:accuracy''],
      Compile_model demo_estimator (compile_arguments demo_env)]"
  by (simp add: calls_of_def notebook_unfold demo_estimator_def objects_under_def sport_only_def
      startswith_def prefix_def bucket_name_def DATA_PATH_def training_job_name_def
      compile_arguments_def demo_env_def)

text \<open>
  Claim C4. In a run of the notebook, wherever the trace holds a compilation call, the
  training job completed and the blocking submission stands earlier in the trace as a call
  that returned normally; and when the training job ends in another terminal state (the
  submission raises), the run makes no compilation call.
\<close>

theorem compile_only_after_successful_fit:
  "(\<forall>before c out after.
      events_of (notebook env) objs = before @ (c, out) # after \<and> is_compile c \<longrightarrow>
        training_job_status env = Completed
      \<and> (\<exists>f \<in> set before. is_fit (fst f) \<and> snd f = Returned))
   \<and> (training_job_status env \<noteq> Completed \<longrightarrow>
        filter is_compile (calls_of (notebook env) objs) = [])"
proof (intro conjI allI impI)
  fix before c out after
  assume a: "events_of (notebook env) objs = before @ (c, out) # after \<and> is_compile c"
  have "compile_follows_fit False (before @ (c, out) # after)"
    using notebook_compile_follows_fit [of env objs] a by simp
  then show "\<exists>f \<in> set before. is_fit (fst f) \<and> snd f = Returned"
    using compile_follows_fit_sound a by blast
  show "training_job_status env = Completed"
  proof (rule ccontr)
    assume "training_job_status env \<noteq> Completed"
    then have "filter is_compile (calls_of (notebook env) objs) = []"
      by (rule no_compile_unless_completed)
    with a show False
      by (simp add: calls_of_def)
  qed
next
  assume "training_job_status env \<noteq> Completed"
  then show "filter is_compile (calls_of (notebook env) objs) = []"
    by (rule no_compile_unless_completed)
qed

theorem compile_only_after_successful_fit_witness:
  "events_of (notebook demo_env) metal_staged
     = take 4 (events_of (notebook demo_env) metal_staged)
       @ (Compile_model demo_estimator (compile_arguments demo_env), Returned) # []
   \<and> is_compile (Compile_model demo_estimator (compile_arguments demo_env))
   \<and> training_job_status demo_env = Completed
   \<and> list_ex (\<lambda>f. is_fit (fst f) \<and> snd f = Returned)
        (take 4 (events_of (notebook demo_env) metal_staged))
   \<and> training_job_status (demo_env\<lparr>training_job_status := Failed\<rparr>) \<noteq> Completed
   \<and> filter is_compile
        (calls_of (notebook (demo_env\<lparr>training_job_status := Failed\<rparr>)) metal_staged) = []"
proof -
  let ?events = "events_of (notebook demo_env) metal_staged"
  let ?compile = "Compile_model demo_estimator (compile_arguments demo_env)"
  have shape: "?events = take 4 ?events @ (?compile, Returned) # [] \<and> is_compile ?compile"
    by (simp add: demo_events)
  have "?events = take 4 ?events @ (?compile, Returned) # [] \<and> is_compile ?compile \<longrightarrow>
          training_job_status demo_env = Completed
        \<and> (\<exists>f \<in> set (take 4 ?events). is_fit (fst f) \<and> snd f = Returned)"
    using compile_only_after_successful_fit [of demo_env metal_staged] by blast
  with shape have completed: "training_job_status demo_env = Completed
        \<and> list_ex (\<lambda>f. is_fit (fst f) \<and> snd f = Returned) (take 4 ?events)"
    unfolding list_ex_iff by blast
  have failed: "training_job_status (demo_env\<lparr>training_job_status := Failed\<rparr>) \<noteq> Completed"
    by simp
  with compile_only_after_successful_fit
        [of "demo_env\<lparr>training_job_status := Failed\<rparr>" metal_staged]
  have "filter is_compile
          (calls_of (notebook (demo_env\<lparr>training_job_status := Failed\<rparr>)) metal_staged) = []"
    by blast
  with shape completed failed show ?thesis
    by blast
qed

text \<open>
  Claim C5. The hyperparameter mapping of the submitted training job has exactly the two
  keys \<open>epochs\<close> and \<open>batch-size\<close>, with the values 6 and 64.
\<close>

theorem fit_hyperparameters:
  assumes "Fit est loc job \<in> set (calls_of (notebook env) objs)"
  shows "map_of (hyperparameters est) ''epochs'' = Some 6
       \<and> map_of (hyperparameters est) ''batch-size'' = Some 64
       \<and> dom (map_of (hyperparameters est)) = {''epochs'', ''batch-size''}
       \<and> length (hyperparameters est) = 2"
  using fit_arguments [OF assms] by (auto simp add: estimator_def)

theorem fit_hyperparameters_witness:
  "Fit demo_estimator (data_location (bucket_name demo_env)) (training_job_name demo_env)
     \<in> set (calls_of (notebook demo_env) sport_only)
   \<and> map_of (hyperparameters demo_estimator) ''epochs'' = Some 6
   \<and> map_of (hyperparameters demo_estimator) ''batch-size'' = Some 64
   \<and> dom (map_of (hyperparameters demo_estimator)) = {''epochs'', ''batch-size''}"
proof -
  have submitted:
    "Fit demo_estimator (data_location (bucket_name demo_env)) (training_job_name demo_env)
       \<in> set (calls_of (notebook demo_env) sport_only)"
    by (simp add: demo_events_upload)
  from fit_hyperparameters [OF submitted] submitted show ?thesis
    by simp
qed



text \<open>
  Claim C10. The image URI of the estimator that is submitted for training is the
  repository \<open>sagemaker-fastai\<close> of the caller's account and region with the fixed tag
  \<open>1.0-gpu-py36\<close>: the reference the build script pushes for the \<open>gpu\<close>
  architecture, never the one it pushes for \<open>cpu\<close>.
\<close>

theorem fit_image_is_gpu_variant:
  assumes "Fit est loc job \<in> set (calls_of (notebook env) objs)"
  shows "image_name est = caller_account env @ ''.dkr.ecr.'' @ region_name env
                            @ ''.amazonaws.com/sagemaker-fastai:1.0-gpu-py36''
       \<and> last (str_split CHR '':'' (image_name est)) = ''1.0-gpu-py36''
       \<and> image_name est = FULLNAME (caller_account env) (region_name env) ''gpu''
       \<and> image_name est \<noteq> FULLNAME (caller_account env) (region_name env) ''cpu''"
proof -
  let ?repo = "caller_account env @ ''.dkr.ecr.'' @ region_name env
                 @ ''.amazonaws.com/sagemaker-fastai''"
  have image: "image_name est = ?repo @ CHR '':'' # ''1.0-gpu-py36''"
    using fit_arguments [OF assms]
    by (simp add: estimator_def training_image_name_def base_image_name_def)
  have "str_split CHR '':'' (image_name est)
          = str_split CHR '':'' ?repo @ str_split CHR '':'' ''1.0-gpu-py36''"
    unfolding image by (rule str_split_append)
  also have "str_split CHR '':'' ''1.0-gpu-py36'' = [''1.0-gpu-py36'']"
    by (rule str_split_no_sep) simp
  finally have "last (str_split CHR '':'' (image_name est)) = ''1.0-gpu-py36''"
    by simp
  with image show ?thesis
    by (simp add: FULLNAME_def TAG_def IMAGE_def FASTAI_VERSION_def PY_VERSION_def)
qed

theorem fit_image_is_gpu_variant_witness:
  "Fit demo_estimator (data_location (bucket_name demo_env)) (training_job_name demo_env)
     \<in> set (calls_of (notebook demo_env) metal_staged)
   \<and> image_name demo_estimator
       = ''123456789012.dkr.ecr.eu-west-1.amazonaws.com/sagemaker-fastai:1.0-gpu-py36''
   \<and> last (str_split CHR '':'' (image_name demo_estimator)) = ''1.0-gpu-py36''"
proof -
  have submitted:
    "Fit demo_estimator (data_location (bucket_name demo_env)) (training_job_name demo_env)
       \<in> set (calls_of (notebook demo_env) metal_staged)"
    by (simp add: calls_of_def demo_events)
  from fit_image_is_gpu_variant [OF submitted] submitted show ?thesis
    by (simp add: demo_env_def)
qed


subsection \<open>Metric extraction\<close>

lemma parse_accuracy_regex:
  "parse_regex (quality_metric_regex ''accuracy'') =
     Some (map Lit ''#quality_metric: host='' @ Non_space_plus False
           # map Lit '', epoch='' @ Non_space_plus False
           # map Lit '', accuracy='' @ [Non_space_plus True])"
  by (simp add: quality_metric_regex_def backslash_S_def)

lemma rules_named_valid_accuracy:
  "rules_named ''valid:accuracy'' (estimator r i) = [accuracy_rule]"
  by (simp add: rules_named_def estimator_def accuracy_rule_def)

lemma match_here_literals:
  "match_here (map Lit l @ items) (l @ s) = match_here items s"
  by (induction l) simp_all

lemma takeWhile_token:
  assumes "\<forall>c \<in> set h. non_space c" and "\<not> non_space x"
  shows "takeWhile non_space (h @ x # s) = h"
  using assms by (simp add: takeWhile_append2)

lemma attempt_takes:
  assumes "0 < n" and "continue (drop n s) = Some groups"
  shows "attempt continue captured s n = Some (if captured then take n s # groups else groups)"
  using assms by (cases n) simp_all

lemma attempt_gives_back:
  assumes "continue (drop (Suc n) s) = None"
  shows "attempt continue captured s (Suc n) = attempt continue captured s n"
  using assms by simp

text \<open>
  \<^verbatim>\<open>\S+\<close> before \<open>", "\<close>: on a blank-free token followed by comma and space, it first
  takes the token and the comma, fails on the space, gives the comma back and goes on.
\<close>

lemma match_here_plus_comma:
  assumes h: "h \<noteq> []" "\<forall>c \<in> set h. non_space c"
    and rest: "match_here items s = Some groups"
  shows "match_here (Non_space_plus False # Lit CHR '','' # Lit CHR '' '' # items)
           (h @ CHR '','' # CHR '' '' # s) = Some groups"
proof -
  let ?text = "h @ CHR '','' # CHR '' '' # s"
  let ?continue = "\<lambda>rest. match_here (Lit CHR '','' # Lit CHR '' '' # items) rest"
  have "takeWhile non_space ((h @ [CHR '','']) @ CHR '' '' # s) = h @ [CHR '','']"
    using h by (intro takeWhile_token) (auto simp: non_space_def)
  then have n: "length (takeWhile non_space ?text) = Suc (length h)"
    by simp
  have longest: "?continue (drop (Suc (length h)) ?text) = None"
    by simp
  have shorter: "?continue (drop (length h) ?text) = Some groups"
    using rest by simp
  have "attempt ?continue False ?text (Suc (length h)) = attempt ?continue False ?text (length h)"
    using longest by (rule attempt_gives_back)
  also have "\<dots> = Some groups"
    using attempt_takes [of "length h" ?continue ?text groups False] h shorter by simp
  finally show ?thesis
    unfolding match_here.simps(3) n .
qed

lemma match_here_group_end:
  assumes "v \<noteq> []" "\<forall>c \<in> set v. non_space c"
  shows "match_here [Non_space_plus True] v = Some [v]"
proof -
  have all: "takeWhile non_space v = v"
    using assms by simp
  have "attempt (match_here []) True v (length v)
          = Some (if True then take (length v) v # [] else [])"
    using assms by (intro attempt_takes) simp_all
  then show ?thesis
    by (simp add: all)
qed

lemma search_skips:
  assumes "c \<notin> set pre"
  shows "search (Lit c # items) (pre @ x # s) = search (Lit c # items) (x # s)"
  using assms by (induction pre) auto

lemma search_quality_metric_line:
  assumes "host \<noteq> []" "\<forall>c \<in> set host. non_space c"
    and "epoch \<noteq> []" "\<forall>c \<in> set epoch. non_space c"
    and "v \<noteq> []" "\<forall>c \<in> set v. non_space c"
    and "CHR ''#'' \<notin> set pre"
  shows "search (map Lit ''#quality_metric: host='' @ Non_space_plus False
           # map Lit '', epoch='' @ Non_space_plus False
           # map Lit '', accuracy='' @ [Non_space_plus True])
          (pre @ ''#quality_metric: host='' @ host @ '', epoch='' @ epoch @ '', accuracy='' @ v)
         = Some [v]"
proof -
  let ?tail3 = "[Non_space_plus True]"
  let ?tail2 = "Non_space_plus False # Lit CHR '','' # Lit CHR '' '' # map Lit ''accuracy='' @ ?tail3"
  let ?tail1 = "Non_space_plus False # Lit CHR '','' # Lit CHR '' '' # map Lit ''epoch='' @ ?tail2"
  have 3: "match_here ?tail3 v = Some [v]"
    using assms by (intro match_here_group_end)
  have "match_here (map Lit ''accuracy='' @ ?tail3) (''accuracy='' @ v) = Some [v]"
    unfolding match_here_literals by (rule 3)
  then have 2: "match_here ?tail2 (epoch @ CHR '','' # CHR '' '' # ''accuracy='' @ v) = Some [v]"
    using assms by (intro match_here_plus_comma)
  have "match_here (map Lit ''epoch='' @ ?tail2)
          (''epoch='' @ epoch @ CHR '','' # CHR '' '' # ''accuracy='' @ v) = Some [v]"
    unfolding match_here_literals by (rule 2)
  then have 1: "match_here ?tail1
         (host @ CHR '','' # CHR '' '' # ''epoch='' @ epoch @ CHR '','' # CHR '' '' # ''accuracy='' @ v)
       = Some [v]"
    using assms by (intro match_here_plus_comma)
  have "match_here (map Lit ''#quality_metric: host='' @ ?tail1)
         (''#quality_metric: host='' @ host @ CHR '','' # CHR '' '' # ''epoch='' @ epoch
            @ CHR '','' # CHR '' '' # ''accuracy='' @ v) = Some [v]"
    unfolding match_here_literals by (rule 1)
  then have here: "match_here (Lit CHR ''#'' # map Lit ''quality_metric: host='' @ ?tail1)
         (CHR ''#'' # ''quality_metric: host='' @ host @ CHR '','' # CHR '' '' # ''epoch='' @ epoch
            @ CHR '','' # CHR '' '' # ''accuracy='' @ v) = Some [v]"
    by (simp del: match_here.simps)
  have "search (Lit CHR ''#'' # map Lit ''quality_metric: host='' @ ?tail1)
         (pre @ CHR ''#'' # ''quality_metric: host='' @ host @ CHR '','' # CHR '' '' # ''epoch='' @ epoch
            @ CHR '','' # CHR '' '' # ''accuracy='' @ v) = Some [v]"
    unfolding search_skips [OF assms(7)] search.simps here by simp
  then show ?thesis
    by (simp del: match_here.simps search.simps)
qed

text \<open>
  Claim C6, as the code has it. The training job has one rule named \<open>valid:accuracy\<close>;
  applied to a log line that ends in
  \<open>#quality_metric: host=H, epoch=E, accuracy=0.912\<close>, where \<open>H\<close> and \<open>E\<close> are
  non-empty and blank-free and no \<open>#\<close> stands earlier in the line, its pattern yields
  exactly one row, with the value \<open>0.912\<close>.
\<close>

theorem valid_accuracy_row:
  assumes "m \<in> set (rules_named ''valid:accuracy'' (estimator r i))"
    and "host \<noteq> []" "\<forall>c \<in> set host. non_space c"
    and "epoch \<noteq> []" "\<forall>c \<in> set epoch. non_space c"
    and "CHR ''#'' \<notin> set pre"
  shows "extract_metric m
           (pre @ ''#quality_metric: host='' @ host @ '', epoch='' @ epoch @ '', accuracy=0.912'')
         = [(''valid:accuracy'', ''0.912'')]"
proof -
  have m: "m = accuracy_rule"
    using assms(1) by (simp add: rules_named_valid_accuracy)
  have "search (map Lit ''#quality_metric: host='' @ Non_space_plus False
           # map Lit '', epoch='' @ Non_space_plus False
           # map Lit '', accuracy='' @ [Non_space_plus True])
          (pre @ ''#quality_metric: host='' @ host @ '', epoch='' @ epoch
             @ '', accuracy='' @ ''0.912'')
         = Some [''0.912'']"
    using assms(2-6) by (intro search_quality_metric_line) (simp_all add: non_space_def)
  then show ?thesis
    by (simp add: m extract_metric_def accuracy_rule_def parse_accuracy_regex
        del: search.simps match_here.simps)
qed

theorem valid_accuracy_row_witness:
  "rules_named ''valid:accuracy'' (estimator [] []) = [accuracy_rule]
   \<and> extract_metric accuracy_rule ''#quality_metric: host=algo-1, epoch=5, accuracy=0.912''
       = [(''valid:accuracy'', ''0.912'')]"
proof -
  have rule: "accuracy_rule \<in> set (rules_named ''valid:accuracy'' (estimator [] []))"
    by (simp add: rules_named_valid_accuracy)
  have host: "''algo-1'' \<noteq> []" "\<forall>c \<in> set ''algo-1''. non_space c"
    by (simp_all add: non_space_def)
  have epoch: "''5'' \<noteq> []" "\<forall>c \<in> set ''5''. non_space c"
    by (simp_all add: non_space_def)
  have pre: "CHR ''#'' \<notin> set []"
    by simp
  from valid_accuracy_row [OF rule host epoch pre] show ?thesis
    by (simp add: rules_named_valid_accuracy)
qed

text \<open>
  Claim C6 as stated fails: a log line that ends in \<open>accuracy=0.912\<close> but does not
  carry the \<open>#quality_metric: host=..., epoch=..., \<close> text the rule's pattern starts
  with yields no row.
\<close>

theorem valid_accuracy_row_counterexample:
  "rules_named ''valid:accuracy'' (estimator [] []) = [accuracy_rule]
   \<and> extract_metric accuracy_rule ''epoch 5: accuracy=0.912'' = []"
  by (simp add: rules_named_valid_accuracy extract_metric_def accuracy_rule_def
      parse_accuracy_regex)


subsection \<open>Further properties of staging and of the build script\<close>

text \<open>
  The same holds whatever the store held before, the empty store included: with a file
  under \<open>metal/\<close> in the local tree and a store that answers, one invocation of
  Dataset Staging is enough.
\<close>

theorem staging_second_invocation_skips:
  assumes "S3_list_objects \<notin> set (unavailable env)" and "S3_upload \<notin> set (unavailable env)"
    and "f \<in> set (local_files env)" and "startswith f ''metal/''"
  shows "filter is_upload (calls_of (stage_dataset env) (store_after (stage_dataset env) objs)) = []
       \<and> result_of (stage_dataset env) (store_after (stage_dataset env) objs)
           = result_of (stage_dataset env) objs
       \<and> result_of (stage_dataset env) objs = Inr (''s3://'' @ bucket_name env @ ''/'' @ prefix)"
  using stage_dataset_twice [OF assms, of objs] by simp

theorem staging_second_invocation_skips_witness:
  "S3_list_objects \<notin> set (unavailable demo_env) \<and> S3_upload \<notin> set (unavailable demo_env)
   \<and> ''metal/m1.jpg'' \<in> set (local_files demo_env) \<and> startswith ''metal/m1.jpg'' ''metal/''
   \<and> filter is_upload (calls_of (stage_dataset demo_env) []) \<noteq> []
   \<and> filter is_upload
        (calls_of (stage_dataset demo_env) (store_after (stage_dataset demo_env) [])) = []"
proof -
  have h: "S3_list_objects \<notin> set (unavailable demo_env)" "S3_upload \<notin> set (unavailable demo_env)"
    "''metal/m1.jpg'' \<in> set (local_files demo_env)" "startswith ''metal/m1.jpg'' ''metal/''"
    by (simp_all add: demo_env_def startswith_def)
  have "filter is_upload (calls_of (stage_dataset demo_env) []) \<noteq> []"
    by (simp add: objects_under_def demo_env_def bucket_name_def prefix_def
      calls_of_def events_of_def stage_dataset_def and_then_def
      list_objects_v2_def remote_def return_def upload_data_def record_call_def DATA_PATH_def)
  with staging_second_invocation_skips [OF h, of "[]"] h show ?thesis
    by simp
qed

text \<open>
  When the store already holds an object under \<open>{prefix}/metal/\<close> and the listing
  call answers, no invocation uploads: the first one performs no upload and leaves the store
  as it is, and so does a second one; both return \<open>s3://{bucket_name}/{prefix}\<close>.
\<close>

theorem staging_idempotent_when_metal_listed:
  assumes "S3_list_objects \<notin> set (unavailable env)"
    and "objects_under objs (bucket_name env) (prefix @ ''/metal/'') \<noteq> []"
  shows "filter is_upload (calls_of (stage_dataset env) objs) = []
       \<and> store_after (stage_dataset env) objs = objs
       \<and> result_of (stage_dataset env) objs = Inr (''s3://'' @ bucket_name env @ ''/'' @ prefix)
       \<and> filter is_upload (calls_of (stage_dataset env) (store_after (stage_dataset env) objs)) = []
       \<and> store_after (stage_dataset env) (store_after (stage_dataset env) objs) = objs
       \<and> result_of (stage_dataset env) (store_after (stage_dataset env) objs)
           = result_of (stage_dataset env) objs"
proof -
  have first: "store_after (stage_dataset env) objs = objs"
    using assms by (simp add: store_after_def stage_dataset_skip record_call_def)
  show ?thesis
    using assms
    by (simp add: first)
       (simp add: calls_of_def events_of_def result_of_def store_after_def stage_dataset_skip
        record_call_def data_location_def)
qed

theorem staging_idempotent_when_metal_listed_witness:
  "S3_list_objects \<notin> set (unavailable demo_env)
   \<and> objects_under metal_staged (bucket_name demo_env) (prefix @ ''/metal/'') \<noteq> []
   \<and> filter is_upload (calls_of (stage_dataset demo_env) metal_staged) = []
   \<and> store_after (stage_dataset demo_env) metal_staged = metal_staged
   \<and> filter is_upload
        (calls_of (stage_dataset demo_env) (store_after (stage_dataset demo_env) metal_staged)) = []
   \<and> result_of (stage_dataset demo_env) metal_staged
       = Inr ''s3://sagemaker-eu-west-1-123456789012/sagemaker/DEMO-shirts-classification''"
proof -
  have available: "S3_list_objects \<notin> set (unavailable demo_env)"
    by (simp add: demo_env_def)
  have staged: "objects_under metal_staged (bucket_name demo_env) (prefix @ ''/metal/'') \<noteq> []"
    by (simp add: objects_under_def metal_staged_def bucket_name_def demo_env_def prefix_def
        startswith_def)
  show ?thesis
    using staging_idempotent_when_metal_listed [OF available staged] available staged
    by (simp add: bucket_name_def demo_env_def prefix_def)
qed

text \<open>
  When the identity is resolved, the build script creates the repository exactly when the
  existence check fails, and logs in to the two registries before the first build.
\<close>

theorem repository_created_iff_absent:
  assumes "sts_account env = Some account"
  shows "(Aws_ecr_create_repository IMAGE \<in> set (commands (build_and_publish env)))
           = (\<not> repository_exists env)
       \<and> exited (build_and_publish env) = None"
  using assms by (auto simp add: build_and_publish_def Let_def)

theorem repository_created_iff_absent_witness:
  "Aws_ecr_create_repository IMAGE \<in> set (commands (build_and_publish
      \<lparr>sts_account = Some ''123456789012'', configured_region = [],
       repository_exists = False\<rparr>))"
  using repository_created_iff_absent
    [of "\<lparr>sts_account = Some ''123456789012'', configured_region = [],
          repository_exists = False\<rparr>" "''123456789012''"]
  by simp


end
